theory Spec2Isabelle
  imports Complex_Main "HOL-Library.Sublist"
begin

section \<open>Sidecars (src/api-generation/sidecars.ts)\<close>

text \<open>
  A UID is a JavaScript string. Optional fields (\<^verbatim>\<open>description?: string\<close>) are options, with
  \<open>None\<close> for \<^verbatim>\<open>undefined\<close>. An order hint is a JavaScript number; the finite ones are
  rationals, and the sign of \<^verbatim>\<open>a.order - b.order\<close> is the sign of the exact difference.
\<close>

type_synonym UID = string

record SidecarSection =
  heading :: string
  content :: string
  order :: "rat option"

record SidecarEntry =
  description :: "string option"
  sections :: "SidecarSection list option"
  seeAlso :: "UID list option"

text \<open>JavaScript truthiness of an optional string: defined and not empty.\<close>

definition truthy :: "string option \<Rightarrow> bool" where
  "truthy s = (case s of None \<Rightarrow> False | Some t \<Rightarrow> t \<noteq> [])"

text \<open>\<^verbatim>\<open>Array.prototype.findIndex\<close>: the first index whose element satisfies the predicate
  (\<open>None\<close> stands for the result -1).\<close>

fun findIndex :: "('a \<Rightarrow> bool) \<Rightarrow> 'a list \<Rightarrow> nat option" where
  "findIndex p [] = None"
| "findIndex p (x # xs) =
     (if p x then Some 0 else (case findIndex p xs of None \<Rightarrow> None | Some i \<Rightarrow> Some (Suc i)))"

subsection \<open>mergeSidecars\<close>

text \<open>
  The accumulator \<^verbatim>\<open>merged\<close> starts as \<^verbatim>\<open>{ sections: [], seeAlso: [] }\<close>: its two lists are
  always defined, its description is not.
\<close>

record Merged =
  m_description :: "string option"
  m_sections :: "SidecarSection list"
  m_seeAlso :: "UID list"

text \<open>The body of the loop over \<^verbatim>\<open>entry.sections\<close>: replace at the index found, or push.\<close>

definition mergeSection :: "SidecarSection list \<Rightarrow> SidecarSection \<Rightarrow> SidecarSection list" where
  "mergeSection ms s =
     (case findIndex (\<lambda>x. heading x = heading s) ms of
        Some i \<Rightarrow> ms[i := s]
      | None \<Rightarrow> ms @ [s])"

text \<open>The body of the loop over \<^verbatim>\<open>entry.seeAlso\<close>, on the pair of \<^verbatim>\<open>merged.seeAlso\<close> and the
  set \<^verbatim>\<open>existingRefs\<close>.\<close>

definition mergeRef :: "UID list \<times> UID set \<Rightarrow> UID \<Rightarrow> UID list \<times> UID set" where
  "mergeRef st r =
     (if r \<notin> snd st then (fst st @ [r], insert r (snd st)) else st)"

definition mergeEntry :: "Merged \<Rightarrow> SidecarEntry \<Rightarrow> Merged" where
  "mergeEntry merged entry =
     (let m1 = (if truthy (description entry)
                then merged\<lparr>m_description := description entry\<rparr> else merged);
          m2 = (case sections entry of
                  None \<Rightarrow> m1
                | Some ss \<Rightarrow> m1\<lparr>m_sections := foldl mergeSection (m_sections m1) ss\<rparr>);
          m3 = (case seeAlso entry of
                  None \<Rightarrow> m2
                | Some rs \<Rightarrow>
                    m2\<lparr>m_seeAlso := fst (foldl mergeRef (m_seeAlso m2, set (m_seeAlso m2)) rs)\<rparr>)
      in m3)"

definition mergeSidecars :: "SidecarEntry list \<Rightarrow> SidecarEntry" where
  "mergeSidecars entries =
     (let merged = foldl mergeEntry
            \<lparr>m_description = None, m_sections = [], m_seeAlso = []\<rparr> entries
      in \<lparr>description = m_description merged,
          sections = Some (m_sections merged),
          seeAlso = Some (m_seeAlso merged)\<rparr>)"

subsection \<open>getSectionsInOrder\<close>

definition SEE_ALSO :: string where
  "SEE_ALSO = ''See Also''"

text \<open>The comparator passed to \<^verbatim>\<open>sort\<close>: negative when \<open>a\<close> goes first.\<close>

definition compareSections :: "SidecarSection \<Rightarrow> SidecarSection \<Rightarrow> rat" where
  "compareSections a b =
     (case order a of
        Some x \<Rightarrow> (case order b of Some y \<Rightarrow> x - y | None \<Rightarrow> - 1)
      | None \<Rightarrow> (case order b of Some y \<Rightarrow> 1 | None \<Rightarrow> 0))"

text \<open>
  \<^verbatim>\<open>Array.prototype.sort\<close> with a comparator is a stable sort (ECMAScript 2019). It is
  modelled as an insertion sort that puts an element before the first one it does not
  compare greater than; for a comparator that is a consistent ordering, as
  \<open>compareSections\<close> is, every stable sort returns the same list.
\<close>

fun insertBy :: "('a \<Rightarrow> 'a \<Rightarrow> rat) \<Rightarrow> 'a \<Rightarrow> 'a list \<Rightarrow> 'a list" where
  "insertBy cmp x [] = [x]"
| "insertBy cmp x (y # ys) = (if cmp x y \<le> 0 then x # y # ys else y # insertBy cmp x ys)"

definition sortBy :: "('a \<Rightarrow> 'a \<Rightarrow> rat) \<Rightarrow> 'a list \<Rightarrow> 'a list" where
  "sortBy cmp xs = foldr (insertBy cmp) xs []"

definition getSectionsInOrder :: "SidecarEntry \<Rightarrow> SidecarSection list" where
  "getSectionsInOrder entry =
     (case sections entry of
        None \<Rightarrow> []
      | Some ss \<Rightarrow> sortBy compareSections (filter (\<lambda>s. heading s \<noteq> SEE_ALSO) ss))"

subsection \<open>resolveSnippets\<close>

text \<open>
  Of a collection, the functions modelled here read \<^verbatim>\<open>entries\<close> and \<^verbatim>\<open>snippets\<close>. A
  \<^verbatim>\<open>Record<string, T>\<close> is a map on its own keys: properties inherited from
  \<^verbatim>\<open>Object.prototype\<close> (a snippet reference named \<^verbatim>\<open>constructor\<close>, say) are outside the
  model.
\<close>

record SidecarCollection =
  entries :: "UID \<rightharpoonup> SidecarEntry"
  snippets :: "(string \<rightharpoonup> string) option"







subsection \<open>hasDocumentation\<close>


section \<open>The manifest (manifest.ts)\<close>

text \<open>
  The fields the generators read. A flag such as \<^verbatim>\<open>isCompilerGenerated?: boolean\<close> is only
  tested for truth, so an absent flag is \<open>False\<close>. The type and member unions are read
  by the generators through one shape (their parameters are typed \<^verbatim>\<open>any\<close>), discriminated by
  \<^verbatim>\<open>typekind\<close> and \<^verbatim>\<open>memberKind\<close>.
\<close>

record Namespace =
  ns_uid :: UID
  ns_name :: string
  ns_parent :: "UID option"
  ns_children :: "UID list option"
  ns_types :: "UID list option"

datatype TypeKind = Class | Struct | Enum | Interface | Delegate

record AnyType =
  t_uid :: UID
  t_name :: string
  t_typekind :: TypeKind
  t_enclosingType :: "UID option"
  t_nestedTypes :: "UID list option"
  t_members :: "UID list option"
  t_attributes :: "UID list option"
  t_isCompilerGenerated :: bool
  t_isStatic :: bool
  t_staticConstructor :: "UID option"

datatype MemberKind =
    Constructor | Finalizer | Method | Property | Field | Event | EnumField
  | InterfaceMethod | InterfaceProperty | InterfaceEvent | Operator | Conversion

record AnyMember =
  mb_uid :: UID
  mb_name :: string
  mb_memberKind :: MemberKind
  mb_attributes :: "UID list option"
  mb_isCompilerGenerated :: bool

record StaticConstructor =
  sc_uid :: UID
  sc_attributes :: "UID list option"
  sc_isCompilerGenerated :: bool

record AttributeData =
  at_uid :: UID
  at_attributeType :: UID

record AssemblyInfo =
  as_uid :: UID
  as_name :: string

text \<open>
  The collections are records indexed by UID. \<^verbatim>\<open>generate\<close> walks the namespaces with
  \<^verbatim>\<open>Object.entries\<close>, in the order of the keys, so they are kept as an association list;
  the keys of a JavaScript object are distinct.
\<close>

record ManifestRoot =
  assemblies :: "UID \<rightharpoonup> AssemblyInfo"
  namespaces :: "(UID \<times> Namespace) list"
  types :: "UID \<rightharpoonup> AnyType"
  members :: "UID \<rightharpoonup> AnyMember"
  attributes :: "UID \<rightharpoonup> AttributeData"
  staticConstructors :: "UID \<rightharpoonup> StaticConstructor"

text \<open>\<^verbatim>\<open>manifest.namespaces[uid]\<close>.\<close>

definition namespaceAt :: "ManifestRoot \<Rightarrow> UID \<Rightarrow> Namespace option" where
  "namespaceAt m uid = map_of (namespaces m) uid"


definition resolveMember :: "ManifestRoot \<Rightarrow> UID \<Rightarrow> AnyMember option" where
  "resolveMember m uid = members m uid"


definition resolveAssembly :: "ManifestRoot \<Rightarrow> UID \<Rightarrow> AssemblyInfo option" where
  "resolveAssembly m uid = assemblies m uid"

definition resolveAttribute :: "ManifestRoot \<Rightarrow> UID \<Rightarrow> AttributeData option" where
  "resolveAttribute m uid = attributes m uid"

section \<open>The generation configuration (FSConfiguration)\<close>

text \<open>
  A directory is the list of its path segments; \<^verbatim>\<open>path.join(dir, name)\<close> appends one
  segment. (\<open>sanitizeFileName\<close> leaves no separator in a name; a name that is empty or a
  dot segment is outside the model.) \<^verbatim>\<open>ignoreAttributes\<close> is a record of booleans, read
  for truth: an absent key is \<open>False\<close>.
\<close>

type_synonym path = "string list"

record FSConfiguration =
  ignoreAttributes :: "string \<Rightarrow> bool"
  globalNamespaceName :: string
  outputDir :: path
  shouldGenerateSidecars :: bool
  sidecarsOutputDir :: path
  gameVersion :: string
  manifest :: ManifestRoot

section \<open>Page generation (page-generation/utils.ts, page-type/namespace.ts)\<close>

text \<open>
  The renderers \<^verbatim>\<open>mdx.link\<close>, \<^verbatim>\<open>mdx.list\<close> and \<^verbatim>\<open>mdx.makeTable\<close> (./mdx-builder/mdx) and the
  markdown builder are not part of the sources at hand. What they are given is kept
  symbolic: a rendered text is a term over the three renderers and plain strings, and a
  page is the sequence of calls made on its builder.
\<close>

datatype mdx =
    Str string
  | MdxLink string string
  | MdxList "mdx list" bool
  | MdxTable "string list" "mdx list list"

datatype builder_call =
    SetFrontMatter string string
  | AddHeading string nat
  | AddText mdx

type_synonym builder = "builder_call list"

datatype js_error = Error string | TypeError string

text \<open>\<^verbatim>\<open>s || d\<close> for an optional string \<open>s\<close>.\<close>

definition orElse :: "string option \<Rightarrow> string \<Rightarrow> string" where
  "orElse s d = (case s of None \<Rightarrow> d | Some t \<Rightarrow> if t = [] then d else t)"

text \<open>\<^verbatim>\<open>s.split(":")\<close>: the pieces between the colons; never the empty list.\<close>

fun splitColon :: "string \<Rightarrow> string list" where
  "splitColon [] = [[]]"
| "splitColon (c # cs) =
     (if c = CHR '':'' then [] # splitColon cs
      else (case splitColon cs of [] \<Rightarrow> [[c]] | p # ps \<Rightarrow> (c # p) # ps))"


definition addSections :: "builder \<Rightarrow> UID \<Rightarrow> SidecarCollection \<Rightarrow> builder" where
  "addSections b uid sidecars =
     (case entries sidecars uid of
        None \<Rightarrow> b
      | Some sidecar \<Rightarrow>
          (case sections sidecar of
             None \<Rightarrow> b
           | Some _ \<Rightarrow>
               foldl (\<lambda>b section. b @ [AddHeading (heading section) 2, AddText (Str (content section))])
                 b (getSectionsInOrder sidecar)))"

text \<open>The fallback of \<open>getNameFromUid\<close>: \<^verbatim>\<open>uid.split(":")[1] || uid\<close>.\<close>

definition nameFromUidText :: "UID \<Rightarrow> string" where
  "nameFromUidText uid =
     (case splitColon uid of
        _ # p # _ \<Rightarrow> if p = [] then uid else p
      | _ \<Rightarrow> uid)"

definition getNameFromUid :: "UID \<Rightarrow> ManifestRoot \<Rightarrow> string" where
  "getNameFromUid uid m =
     (case types m uid of
        Some t \<Rightarrow> t_name t
      | None \<Rightarrow>
     (case members m uid of
        Some mb \<Rightarrow> mb_name mb
      | None \<Rightarrow>
     (case namespaceAt m uid of
        Some ns \<Rightarrow> ns_name ns
      | None \<Rightarrow>
     (case assemblies m uid of
        Some a \<Rightarrow> as_name a
      | None \<Rightarrow> nameFromUidText uid))))"

definition addSeeAlso ::
  "builder \<Rightarrow> UID \<Rightarrow> SidecarCollection \<Rightarrow> ManifestRoot \<Rightarrow> (UID \<Rightarrow> string) \<Rightarrow> builder" where
  "addSeeAlso b uid sidecars m uidToSlugFn =
     (case entries sidecars uid of
        None \<Rightarrow> b
      | Some sidecar \<Rightarrow>
          (case seeAlso sidecar of
             None \<Rightarrow> b
           | Some refs \<Rightarrow>
               if length refs = 0 then b
               else b @ [AddHeading ''See Also'' 2,
                         AddText (MdxList
                           (map (\<lambda>refUid. MdxLink (getNameFromUid refUid m) (uidToSlugFn refUid)) refs)
                           False)]))"


definition getInlineDescription :: "UID \<Rightarrow> SidecarCollection \<Rightarrow> string" where
  "getInlineDescription uid sidecars =
     (case entries sidecars uid of None \<Rightarrow> [] | Some sidecar \<Rightarrow> orElse (description sidecar) [])"

text \<open>The rows of a listing: the UIDs that do not resolve are skipped.\<close>

definition typeRows ::
  "ManifestRoot \<Rightarrow> SidecarCollection \<Rightarrow> (UID \<Rightarrow> string) \<Rightarrow> UID list \<Rightarrow> mdx list list" where
  "typeRows m sidecars uidToSlugFn uids =
     concat (map (\<lambda>typeUid.
       (case types m typeUid of
          None \<Rightarrow> []
        | Some t \<Rightarrow> [[MdxLink (t_name t) (uidToSlugFn (t_uid t)),
                      Str (getInlineDescription (t_uid t) sidecars)]])) uids)"

definition getTypesTable ::
  "UID \<Rightarrow> ManifestRoot \<Rightarrow> SidecarCollection \<Rightarrow> (UID \<Rightarrow> string) \<Rightarrow> mdx" where
  "getTypesTable uid m sidecars uidToSlugFn =
     (let docType = (case splitColon uid of [] \<Rightarrow> [] | p # _ \<Rightarrow> p) in
      if docType = ''ns'' then
        (case namespaceAt m uid of
           Some ns \<Rightarrow>
             MdxTable [''Type'', ''Description'']
               (typeRows m sidecars uidToSlugFn (case ns_types ns of None \<Rightarrow> [] | Some ts \<Rightarrow> ts))
         | None \<Rightarrow> Str ''The namespace could not be found in the manifest.'')
      else if docType = ''type'' then
        (case types m uid of
           Some t \<Rightarrow>
             MdxTable [''Type'', ''Description'']
               (typeRows m sidecars uidToSlugFn (case t_nestedTypes t of None \<Rightarrow> [] | Some ts \<Rightarrow> ts))
         | None \<Rightarrow> Str ''The type could not be found in the manifest.'')
      else MdxTable [''Type'', ''Description''] (typeRows m sidecars uidToSlugFn []))"



section \<open>The file-structure generator (FileStructureGenerator)\<close>

subsection \<open>Names\<close>

definition isDigit :: "char \<Rightarrow> bool" where
  "isDigit c = (let n = (of_char c :: nat) in 48 \<le> n \<and> n \<le> 57)"

text \<open>\<^verbatim>\<open>name.replace(/`\d+$/, "")\<close>: a backquote (code 96) followed by digits up to the end
  of the name is removed.\<close>

definition stripGenericParameters :: "string \<Rightarrow> string" where
  "stripGenericParameters name =
     (let r = rev name;
          ds = takeWhile isDigit r;
          rest = dropWhile isDigit r
      in (case rest of
            [] \<Rightarrow> name
          | c # front \<Rightarrow>
              if ds \<noteq> [] \<and> (of_char c :: nat) = 96 then rev front else name))"

text \<open>The characters of the class \<^verbatim>\<open>[<>:"/\|?*]\<close>, by their codes, and the ASCII members of
  \<^verbatim>\<open>\s\<close>.\<close>

definition isIllegalChar :: "char \<Rightarrow> bool" where
  "isIllegalChar c = ((of_char c :: nat) \<in> {60, 62, 58, 34, 47, 92, 124, 63, 42})"

definition isSpaceChar :: "char \<Rightarrow> bool" where
  "isSpaceChar c = ((of_char c :: nat) \<in> {9, 10, 11, 12, 13, 32})"

function replaceSpaceRuns :: "string \<Rightarrow> string" where
  "replaceSpaceRuns [] = []"
| "replaceSpaceRuns (c # cs) =
     (if isSpaceChar c then CHR ''-'' # replaceSpaceRuns (dropWhile isSpaceChar cs)
      else c # replaceSpaceRuns cs)"
  by pat_completeness auto
termination
  by (relation "measure length") (auto simp: le_imp_less_Suc length_dropWhile_le)

definition sanitizeFileName :: "string \<Rightarrow> string" where
  "sanitizeFileName name =
     replaceSpaceRuns
       (map (\<lambda>c. if isIllegalChar c then CHR ''-'' else c) (stripGenericParameters name))"

text \<open>The decimal numeral of a number, for \<^verbatim>\<open>`Constructor${index + 1}.mdx`\<close>.\<close>

fun showNat :: "nat \<Rightarrow> string" where
  "showNat n =
     (if n < 10 then [char_of (48 + n)]
      else showNat (n div 10) @ [char_of (48 + n mod 10)])"

subsection \<open>The ignore predicate\<close>

text \<open>
  \<open>shouldIgnoreType\<close> and \<open>shouldIgnoreMember\<close> read \<^verbatim>\<open>config.manifest.attributes\<close> and
  \<^verbatim>\<open>config.ignoreAttributes\<close>. The generator passes \<^verbatim>\<open>this.config\<close> in some calls and
  \<^verbatim>\<open>this.manifest\<close> in others; a manifest has no \<^verbatim>\<open>manifest\<close> property, so with it the first
  attribute looked up raises a TypeError. The argument is therefore either a
  configuration or an object that is not one.
\<close>

datatype config_arg = Config FSConfiguration | NotAConfig

fun ignoredByAttributes :: "config_arg \<Rightarrow> UID list \<Rightarrow> js_error + bool" where
  "ignoredByAttributes arg [] = Inr False"
| "ignoredByAttributes NotAConfig (attrUid # rest) =
     Inl (TypeError ''Cannot read properties of undefined (reading attributes)'')"
| "ignoredByAttributes (Config config) (attrUid # rest) =
     (case attributes (manifest config) attrUid of
        Some attr \<Rightarrow>
          if ignoreAttributes config (at_attributeType attr) then Inr True
          else ignoredByAttributes (Config config) rest
      | None \<Rightarrow> ignoredByAttributes (Config config) rest)"

definition shouldIgnore :: "bool \<Rightarrow> UID list option \<Rightarrow> config_arg \<Rightarrow> js_error + bool" where
  "shouldIgnore isCompilerGenerated attrs arg =
     (if isCompilerGenerated then Inr True
      else (case attrs of None \<Rightarrow> Inr False | Some as \<Rightarrow> ignoredByAttributes arg as))"

definition shouldIgnoreType :: "AnyType \<Rightarrow> config_arg \<Rightarrow> js_error + bool" where
  "shouldIgnoreType t arg = shouldIgnore (t_isCompilerGenerated t) (t_attributes t) arg"

definition shouldIgnoreMember :: "AnyMember \<Rightarrow> config_arg \<Rightarrow> js_error + bool" where
  "shouldIgnoreMember mb arg = shouldIgnore (mb_isCompilerGenerated mb) (mb_attributes mb) arg"

definition shouldIgnoreStaticConstructor :: "StaticConstructor \<Rightarrow> config_arg \<Rightarrow> js_error + bool" where
  "shouldIgnoreStaticConstructor sc arg =
     shouldIgnore (sc_isCompilerGenerated sc) (sc_attributes sc) arg"

subsection \<open>File-system calls and runs\<close>

text \<open>
  The content of a generated file is a placeholder template filled from the entity it
  documents; it is kept symbolic, as that entity. A run of the generator is the sequence
  of its file-system calls (\<^verbatim>\<open>mkdirSync\<close> with \<^verbatim>\<open>recursive\<close>, \<^verbatim>\<open>writeFileSync\<close>), which are
  taken to succeed, and how it ends: it returns, it throws, or the bound on the depth
  of its recursion is reached.
\<close>

datatype page_content =
    NamespaceContent Namespace
  | TypeContent AnyType
  | StaticConstructorContent StaticConstructor
  | ConstructorContent AnyMember
  | MethodContent "AnyMember list"
  | PropertyContent AnyMember
  | FieldContent AnyMember
  | EventContent AnyMember

datatype fs_call = Mkdir path | WriteFile path page_content

datatype outcome = Done | Threw js_error | OutOfFuel

type_synonym run = "fs_call list \<times> outcome"

definition emit :: "fs_call list \<Rightarrow> run" where
  "emit calls = (calls, Done)"

text \<open>Sequencing: what follows runs only when what precedes has returned.\<close>

definition andThen :: "run \<Rightarrow> run \<Rightarrow> run" where
  "andThen r k = (case snd r of Done \<Rightarrow> (fst r @ fst k, snd k) | _ \<Rightarrow> r)"

fun forEach :: "('a \<Rightarrow> run) \<Rightarrow> 'a list \<Rightarrow> run" where
  "forEach f [] = ([], Done)"
| "forEach f (x # xs) = andThen (f x) (forEach f xs)"

text \<open>A run that goes on only when a test that may throw has returned.\<close>

definition whenNot :: "js_error + bool \<Rightarrow> run \<Rightarrow> run" where
  "whenNot test r =
     (case test of Inl e \<Rightarrow> ([], Threw e) | Inr True \<Rightarrow> ([], Done) | Inr False \<Rightarrow> r)"

subsection \<open>Members\<close>

record MemberGroups =
  g_constructors :: "AnyMember list"
  g_methods :: "AnyMember list"
  g_properties :: "AnyMember list"
  g_fields :: "AnyMember list"
  g_events :: "AnyMember list"

definition addToGroup :: "MemberGroups \<Rightarrow> AnyMember \<Rightarrow> MemberGroups" where
  "addToGroup groups mb =
     (case mb_memberKind mb of
        Constructor \<Rightarrow> groups\<lparr>g_constructors := g_constructors groups @ [mb]\<rparr>
      | Method \<Rightarrow> groups\<lparr>g_methods := g_methods groups @ [mb]\<rparr>
      | InterfaceMethod \<Rightarrow> groups\<lparr>g_methods := g_methods groups @ [mb]\<rparr>
      | Property \<Rightarrow> groups\<lparr>g_properties := g_properties groups @ [mb]\<rparr>
      | InterfaceProperty \<Rightarrow> groups\<lparr>g_properties := g_properties groups @ [mb]\<rparr>
      | Field \<Rightarrow> groups\<lparr>g_fields := g_fields groups @ [mb]\<rparr>
      | EnumField \<Rightarrow> groups\<lparr>g_fields := g_fields groups @ [mb]\<rparr>
      | Event \<Rightarrow> groups\<lparr>g_events := g_events groups @ [mb]\<rparr>
      | InterfaceEvent \<Rightarrow> groups\<lparr>g_events := g_events groups @ [mb]\<rparr>
      | _ \<Rightarrow> groups)"

text \<open>\<open>groupMembersByKind\<close> passes \<^verbatim>\<open>this.manifest\<close> to \<open>shouldIgnoreMember\<close>.\<close>

fun groupMembersLoop :: "ManifestRoot \<Rightarrow> MemberGroups \<Rightarrow> UID list \<Rightarrow> js_error + MemberGroups" where
  "groupMembersLoop m groups [] = Inr groups"
| "groupMembersLoop m groups (uid # uids) =
     (case members m uid of
        None \<Rightarrow> groupMembersLoop m groups uids
      | Some mb \<Rightarrow>
          (case shouldIgnoreMember mb NotAConfig of
             Inl e \<Rightarrow> Inl e
           | Inr True \<Rightarrow> groupMembersLoop m groups uids
           | Inr False \<Rightarrow> groupMembersLoop m (addToGroup groups mb) uids))"

definition groupMembersByKind :: "ManifestRoot \<Rightarrow> UID list \<Rightarrow> js_error + MemberGroups" where
  "groupMembersByKind m memberUids =
     groupMembersLoop m
       \<lparr>g_constructors = [], g_methods = [], g_properties = [], g_fields = [], g_events = []\<rparr> memberUids"

text \<open>\<open>groupMethodsByName\<close>: the groups in the order in which their names are first seen
  (the order of \<^verbatim>\<open>Object.entries\<close> for names that are not array indices).\<close>

fun addMethod :: "(string \<times> AnyMember list) list \<Rightarrow> AnyMember \<Rightarrow> (string \<times> AnyMember list) list" where
  "addMethod [] mb = [(mb_name mb, [mb])]"
| "addMethod ((name, ms) # groups) mb =
     (if name = mb_name mb then (name, ms @ [mb]) # groups
      else (name, ms) # addMethod groups mb)"

definition groupMethodsByName :: "AnyMember list \<Rightarrow> (string \<times> AnyMember list) list" where
  "groupMethodsByName ms = foldl addMethod [] ms"

definition generateConstructors :: "path \<Rightarrow> AnyMember list \<Rightarrow> run" where
  "generateConstructors typePath ctors =
     (let ctorPath = typePath @ [''Constructors''] in
      emit (Mkdir ctorPath #
            map (\<lambda>(index, ctor).
                   WriteFile
                     (ctorPath @ [if length ctors = 1 then ''Constructor.mdx''
                                  else ''Constructor'' @ showNat (index + 1) @ ''.mdx''])
                     (ConstructorContent ctor))
                (zip [0 ..< length ctors] ctors)))"

definition generateMethods :: "path \<Rightarrow> AnyMember list \<Rightarrow> run" where
  "generateMethods typePath ms =
     (let methodPath = typePath @ [''Methods''] in
      emit (Mkdir methodPath #
            map (\<lambda>(methodName, methodList).
                   WriteFile (methodPath @ [sanitizeFileName methodName @ ''.mdx''])
                     (MethodContent methodList))
                (groupMethodsByName ms)))"

definition generateProperties :: "path \<Rightarrow> AnyMember list \<Rightarrow> run" where
  "generateProperties typePath props =
     (let propPath = typePath @ [''Properties''] in
      emit (Mkdir propPath #
            map (\<lambda>prop. WriteFile (propPath @ [sanitizeFileName (mb_name prop) @ ''.mdx''])
                          (PropertyContent prop)) props))"

definition generateFields :: "path \<Rightarrow> AnyMember list \<Rightarrow> run" where
  "generateFields typePath fs =
     (let fieldPath = typePath @ [''Fields''] in
      emit (Mkdir fieldPath #
            map (\<lambda>field. WriteFile (fieldPath @ [sanitizeFileName (mb_name field) @ ''.mdx''])
                           (FieldContent field)) fs))"

definition generateEvents :: "path \<Rightarrow> AnyMember list \<Rightarrow> run" where
  "generateEvents typePath evs =
     (let eventPath = typePath @ [''Events''] in
      emit (Mkdir eventPath #
            map (\<lambda>event. WriteFile (eventPath @ [sanitizeFileName (mb_name event) @ ''.mdx''])
                           (EventContent event)) evs))"

text \<open>
  For an enum, \<open>generateType\<close> hands \<^verbatim>\<open>type.members\<close>, a list of UIDs, to \<open>generateFields\<close>,
  which expects member objects: the directory is made, and the first UID, a string
  without a \<^verbatim>\<open>name\<close>, makes \<open>sanitizeFileName\<close> raise a TypeError.
\<close>

definition generateFieldsOfUids :: "path \<Rightarrow> UID list \<Rightarrow> run" where
  "generateFieldsOfUids typePath uids =
     (let fieldPath = typePath @ [''Fields''] in
      if uids = [] then emit [Mkdir fieldPath]
      else ([Mkdir fieldPath],
            Threw (TypeError ''Cannot read properties of undefined (reading replace)'')))"

text \<open>The part of \<open>generateType\<close> under \<^verbatim>\<open>if (type.members)\<close>, for a class, struct or interface.\<close>

definition generateStaticConstructor :: "ManifestRoot \<Rightarrow> AnyType \<Rightarrow> path \<Rightarrow> run" where
  "generateStaticConstructor m t typePath =
     (case t_staticConstructor t of
        None \<Rightarrow> emit []
      | Some uid \<Rightarrow>
          if uid = [] then emit []
          else
            (case staticConstructors m uid of
               None \<Rightarrow> emit []
             | Some staticCtor \<Rightarrow>
                 whenNot (shouldIgnoreStaticConstructor staticCtor NotAConfig)
                   (emit [WriteFile (typePath @ [''static-constructor.mdx''])
                            (StaticConstructorContent staticCtor)])))"

definition generateMembers :: "ManifestRoot \<Rightarrow> AnyType \<Rightarrow> path \<Rightarrow> UID list \<Rightarrow> run" where
  "generateMembers m t typePath memberUids =
     (case groupMembersByKind m memberUids of
        Inl e \<Rightarrow> ([], Threw e)
      | Inr membersByKind \<Rightarrow>
          andThen (if length (g_constructors membersByKind) > 0 \<and> \<not> t_isStatic t
                   then generateConstructors typePath (g_constructors membersByKind) else emit [])
         (andThen (generateStaticConstructor m t typePath)
         (andThen (if length (g_methods membersByKind) > 0
                   then generateMethods typePath (g_methods membersByKind) else emit [])
         (andThen (if length (g_properties membersByKind) > 0
                   then generateProperties typePath (g_properties membersByKind) else emit [])
         (andThen (if length (g_fields membersByKind) > 0
                   then generateFields typePath (g_fields membersByKind) else emit [])
                  (if length (g_events membersByKind) > 0
                   then generateEvents typePath (g_events membersByKind) else emit []))))))"

subsection \<open>Types and namespaces\<close>

text \<open>
  \<open>generateType\<close> and \<open>generateNamespace\<close> call themselves for nested types and child
  namespaces, with nothing that bounds the depth. The first argument bounds the depth of
  the calls: a run that would go deeper ends with \<open>OutOfFuel\<close>, and a call that ends so
  for every bound does not return. \<open>generateNestedTypes\<close> passes \<^verbatim>\<open>this.manifest\<close> to
  \<open>shouldIgnoreType\<close>.
\<close>

fun generateType :: "nat \<Rightarrow> ManifestRoot \<Rightarrow> AnyType \<Rightarrow> path \<Rightarrow> run" where
  "generateType 0 m t parentPath = ([], OutOfFuel)"
| "generateType (Suc n) m t parentPath =
     (let typeName = sanitizeFileName (t_name t);
          typePath = parentPath @ [typeName]
      in if t_typekind t = Delegate then
           emit [WriteFile (parentPath @ [typeName @ ''.mdx'']) (TypeContent t)]
         else if t_typekind t = Enum then
           andThen (emit [Mkdir typePath, WriteFile (typePath @ [''index.mdx'']) (TypeContent t)])
                   (case t_members t of
                      None \<Rightarrow> emit []
                    | Some uids \<Rightarrow> generateFieldsOfUids typePath uids)
         else
           andThen (emit [Mkdir typePath, WriteFile (typePath @ [''index.mdx'']) (TypeContent t)])
          (andThen (case t_members t of
                      None \<Rightarrow> emit []
                    | Some uids \<Rightarrow> generateMembers m t typePath uids)
                   (case t_nestedTypes t of
                      None \<Rightarrow> emit []
                    | Some nested \<Rightarrow>
                        if length nested > 0 then
                          andThen (emit [Mkdir (typePath @ [''Nested-Types''])])
                            (forEach (\<lambda>nestedUid.
                               (case types m nestedUid of
                                  None \<Rightarrow> emit []
                                | Some nestedType \<Rightarrow>
                                    whenNot (shouldIgnoreType nestedType NotAConfig)
                                      (generateType n m nestedType (typePath @ [''Nested-Types'']))))
                               nested)
                        else emit [])))"

text \<open>The loop over \<^verbatim>\<open>namespace.types\<close>, the same in \<open>generateNamespace\<close> and
  \<open>generateGlobalNamespace\<close> but for the argument of \<open>shouldIgnoreType\<close>.\<close>

definition generateTypesOf :: "nat \<Rightarrow> ManifestRoot \<Rightarrow> config_arg \<Rightarrow> path \<Rightarrow> UID list \<Rightarrow> run" where
  "generateTypesOf n m arg typesPath typeUids =
     forEach (\<lambda>typeUid.
       (case types m typeUid of
          None \<Rightarrow> emit []
        | Some t \<Rightarrow>
            whenNot (shouldIgnoreType t arg)
              (if truthy (t_enclosingType t) then emit [] else generateType n m t typesPath)))
       typeUids"

fun generateNamespace :: "nat \<Rightarrow> FSConfiguration \<Rightarrow> Namespace \<Rightarrow> path \<Rightarrow> run" where
  "generateNamespace 0 config ns parentPath = ([], OutOfFuel)"
| "generateNamespace (Suc n) config ns parentPath =
     (let namespacePath = parentPath @ [sanitizeFileName (ns_name ns)]
      in andThen (emit [Mkdir namespacePath,
                        WriteFile (namespacePath @ [''index.mdx'']) (NamespaceContent ns)])
        (andThen (case ns_children ns of
                    None \<Rightarrow> emit []
                  | Some children \<Rightarrow>
                      if length children > 0 then
                        andThen (emit [Mkdir (namespacePath @ [''Namespaces''])])
                          (forEach (\<lambda>childUid.
                             (case namespaceAt (manifest config) childUid of
                                None \<Rightarrow> emit []
                              | Some childNamespace \<Rightarrow>
                                  generateNamespace n config childNamespace
                                    (namespacePath @ [''Namespaces''])))
                             children)
                      else emit [])
                 (case ns_types ns of
                    None \<Rightarrow> emit []
                  | Some typeUids \<Rightarrow>
                      if length typeUids > 0 then
                        andThen (emit [Mkdir (namespacePath @ [''Types''])])
                          (generateTypesOf n (manifest config) (Config config)
                             (namespacePath @ [''Types'']) typeUids)
                      else emit [])))"

text \<open>
  In \<open>generateGlobalNamespace\<close> the second argument of \<open>shouldIgnoreType\<close> is left
  unfinished in the source (\<^verbatim>\<open>this.\<close>); it is a parameter here, \<open>garg\<close>, and what is proved of
  this function holds whatever is passed.
\<close>

definition generateGlobalNamespace ::
  "nat \<Rightarrow> FSConfiguration \<Rightarrow> config_arg \<Rightarrow> Namespace \<Rightarrow> run" where
  "generateGlobalNamespace n config garg ns =
     (case ns_types ns of
        None \<Rightarrow> emit []
      | Some typeUids \<Rightarrow>
          if length typeUids = 0 then emit []
          else
            (let globalPath = outputDir config @ [''Global Namespace''];
                 typesPath = globalPath @ [''Types'']
             in andThen (emit [Mkdir globalPath,
                               WriteFile (globalPath @ [''index.mdx'']) (NamespaceContent ns),
                               Mkdir typesPath])
                        (generateTypesOf n (manifest config) garg typesPath typeUids)))"

text \<open>\<open>generate\<close>; \<open>targetExists\<close> is what \<^verbatim>\<open>fs.existsSync(this.targetDir)\<close> returns.\<close>

definition generate :: "nat \<Rightarrow> FSConfiguration \<Rightarrow> config_arg \<Rightarrow> bool \<Rightarrow> run" where
  "generate n config garg targetExists =
     andThen (emit (if targetExists then [] else [Mkdir (outputDir config)]))
       (forEach (\<lambda>(uid, ns).
          if uid = ''ns:<global>'' then generateGlobalNamespace n config garg ns
          else if ns_parent ns = Some ''ns:<global>'' then
            generateNamespace n config ns (outputDir config)
          else emit [])
          (namespaces (manifest config)))"

section \<open>The file system\<close>







section \<open>The specification's words, as definitions\<close>

text \<open>The list without its repetitions, every element at the place where it is first seen.\<close>

fun firstSeen :: "'a list \<Rightarrow> 'a list" where
  "firstSeen [] = []"
| "firstSeen (x # xs) = x # filter (\<lambda>y. y \<noteq> x) (firstSeen xs)"

text \<open>The see-also list and the sections an entry declares (none when the field is absent).\<close>

definition refsOf :: "SidecarEntry \<Rightarrow> UID list" where
  "refsOf e = (case seeAlso e of None \<Rightarrow> [] | Some rs \<Rightarrow> rs)"

definition sectionsOf :: "SidecarEntry \<Rightarrow> SidecarSection list" where
  "sectionsOf e = (case sections e of None \<Rightarrow> [] | Some ss \<Rightarrow> ss)"

text \<open>The last non-empty description of a list of optional descriptions, absent if there is none.\<close>

definition lastNonEmpty :: "string option list \<Rightarrow> string option" where
  "lastNonEmpty ds = (case filter truthy ds of [] \<Rightarrow> None | d # rest \<Rightarrow> last (d # rest))"

text \<open>
  The merged sections of a list of declared sections, least specific first: one section
  for every heading, at the place where the heading is first seen, and holding the most
  specific (last) section declared under that heading.
\<close>

definition lastWithHeading :: "SidecarSection list \<Rightarrow> string \<Rightarrow> SidecarSection" where
  "lastWithHeading ss h = last (filter (\<lambda>s. heading s = h) ss)"

definition specSections :: "SidecarSection list \<Rightarrow> SidecarSection list" where
  "specSections ss = map (lastWithHeading ss) (firstSeen (map heading ss))"









text \<open>
  The ignore policy in the specification's words: an entity is ignored when it is
  compiler-generated, or when one of its attributes is of a kind in the ignore-list.
\<close>

definition hasIgnoredAttribute :: "FSConfiguration \<Rightarrow> UID list option \<Rightarrow> bool" where
  "hasIgnoredAttribute config attrs =
     (case attrs of
        None \<Rightarrow> False
      | Some uids \<Rightarrow>
          list_ex (\<lambda>uid. case attributes (manifest config) uid of
                           None \<Rightarrow> False
                         | Some attr \<Rightarrow> ignoreAttributes config (at_attributeType attr)) uids)"

definition ignoredMember :: "FSConfiguration \<Rightarrow> AnyMember \<Rightarrow> bool" where
  "ignoredMember config mb =
     (mb_isCompilerGenerated mb \<or> hasIgnoredAttribute config (mb_attributes mb))"

text \<open>A section with an order hint, and its hint.\<close>

definition hinted :: "SidecarSection \<Rightarrow> bool" where
  "hinted s = (order s \<noteq> None)"

definition hint :: "SidecarSection \<Rightarrow> rat" where
  "hint s = (case order s of Some x \<Rightarrow> x | None \<Rightarrow> 0)"

text \<open>The sections of an entry that take part in the ordering: all but those headed
  See Also.\<close>

definition orderedSections :: "SidecarEntry \<Rightarrow> SidecarSection list" where
  "orderedSections e = filter (\<lambda>s. heading s \<noteq> SEE_ALSO) (sectionsOf e)"

text \<open>What is rendered for one section, and for the see-also references of an entry.\<close>

definition sectionBlock :: "SidecarSection \<Rightarrow> builder_call list" where
  "sectionBlock s = [AddHeading (heading s) 2, AddText (Str (content s))]"

definition seeAlsoBlock :: "ManifestRoot \<Rightarrow> (UID \<Rightarrow> string) \<Rightarrow> UID list \<Rightarrow> builder_call list" where
  "seeAlsoBlock m uidToSlugFn refs =
     (if refs = [] then []
      else [AddHeading ''See Also'' 2,
            AddText (MdxList (map (\<lambda>r. MdxLink (getNameFromUid r m) (uidToSlugFn r)) refs) False)])"


section \<open>What a run may write\<close>


text \<open>A call under the directory \<open>p\<close> that, when it writes a file, writes a content
  satisfying \<open>Q\<close>.\<close>

fun callOK :: "path \<Rightarrow> (page_content \<Rightarrow> bool) \<Rightarrow> fs_call \<Rightarrow> bool" where
  "callOK p Q (Mkdir q) = prefix p q"
| "callOK p Q (WriteFile q c) = (prefix p q \<and> Q c)"

definition allCalls :: "(fs_call \<Rightarrow> bool) \<Rightarrow> run \<Rightarrow> bool" where
  "allCalls P r = list_all P (fst r)"

text \<open>
  An entity that \<open>shouldIgnore\<close> lets pass when it is given something that is not a
  configuration: not compiler-generated, and without attributes.
\<close>

definition cleanAttrs :: "bool \<Rightarrow> UID list option \<Rightarrow> bool" where
  "cleanAttrs cg attrs = (\<not> cg \<and> (attrs = None \<or> attrs = Some []))"

definition cleanMember :: "AnyMember \<Rightarrow> bool" where
  "cleanMember mb = cleanAttrs (mb_isCompilerGenerated mb) (mb_attributes mb)"

definition cleanType :: "AnyType \<Rightarrow> bool" where
  "cleanType t = cleanAttrs (t_isCompilerGenerated t) (t_attributes t)"

fun cleanContent :: "page_content \<Rightarrow> bool" where
  "cleanContent (NamespaceContent ns) = True"
| "cleanContent (TypeContent t) = cleanType t"
| "cleanContent (StaticConstructorContent sc) = cleanAttrs (sc_isCompilerGenerated sc) (sc_attributes sc)"
| "cleanContent (ConstructorContent mb) = cleanMember mb"
| "cleanContent (MethodContent ms) = list_all cleanMember ms"
| "cleanContent (PropertyContent mb) = cleanMember mb"
| "cleanContent (FieldContent mb) = cleanMember mb"
| "cleanContent (EventContent mb) = cleanMember mb"

definition groupsClean :: "MemberGroups \<Rightarrow> bool" where
  "groupsClean g = (list_all cleanMember (g_constructors g) \<and> list_all cleanMember (g_methods g)
     \<and> list_all cleanMember (g_properties g) \<and> list_all cleanMember (g_fields g)
     \<and> list_all cleanMember (g_events g))"

text \<open>The contents \<open>generateType\<close> writes for a type: the page of the type itself, and
  pages of members and nested types that passed \<open>shouldIgnore\<close>.\<close>

definition selfOrClean :: "AnyType \<Rightarrow> page_content \<Rightarrow> bool" where
  "selfOrClean t c = (c = TypeContent t \<or> cleanContent c)"

text \<open>The contents written below a namespace whose types are tested with \<open>arg\<close>.\<close>

definition siteOK :: "config_arg \<Rightarrow> page_content \<Rightarrow> bool" where
  "siteOK arg c = (cleanContent c \<or> (\<exists>t. c = TypeContent t \<and> shouldIgnoreType t arg = Inr False))"

definition generatedOK :: "FSConfiguration \<Rightarrow> config_arg \<Rightarrow> page_content \<Rightarrow> bool" where
  "generatedOK config garg c = (siteOK (Config config) c \<or> siteOK garg c)"

text \<open>The pages a run writes, and whether the entity a page documents is ignored, or is
  compiler-generated.\<close>

fun writtenContents :: "fs_call list \<Rightarrow> page_content list" where
  "writtenContents [] = []"
| "writtenContents (Mkdir p # calls) = writtenContents calls"
| "writtenContents (WriteFile p c # calls) = c # writtenContents calls"

fun ignoredContent :: "FSConfiguration \<Rightarrow> page_content \<Rightarrow> bool" where
  "ignoredContent config (NamespaceContent ns) = False"
| "ignoredContent config (TypeContent t) =
     (t_isCompilerGenerated t \<or> hasIgnoredAttribute config (t_attributes t))"
| "ignoredContent config (StaticConstructorContent sc) =
     (sc_isCompilerGenerated sc \<or> hasIgnoredAttribute config (sc_attributes sc))"
| "ignoredContent config (ConstructorContent mb) = ignoredMember config mb"
| "ignoredContent config (MethodContent ms) = list_ex (ignoredMember config) ms"
| "ignoredContent config (PropertyContent mb) = ignoredMember config mb"
| "ignoredContent config (FieldContent mb) = ignoredMember config mb"
| "ignoredContent config (EventContent mb) = ignoredMember config mb"

fun compilerGeneratedContent :: "page_content \<Rightarrow> bool" where
  "compilerGeneratedContent (NamespaceContent ns) = False"
| "compilerGeneratedContent (TypeContent t) = t_isCompilerGenerated t"
| "compilerGeneratedContent (StaticConstructorContent sc) = sc_isCompilerGenerated sc"
| "compilerGeneratedContent (ConstructorContent mb) = mb_isCompilerGenerated mb"
| "compilerGeneratedContent (MethodContent ms) = list_ex mb_isCompilerGenerated ms"
| "compilerGeneratedContent (PropertyContent mb) = mb_isCompilerGenerated mb"
| "compilerGeneratedContent (FieldContent mb) = mb_isCompilerGenerated mb"
| "compilerGeneratedContent (EventContent mb) = mb_isCompilerGenerated mb"

section \<open>Example inputs\<close>

text \<open>A manifest without entities, and a configuration that generates into \<^verbatim>\<open>docs\<close> with
  sidecars asked for under \<^verbatim>\<open>sidecars\<close>.\<close>

definition exManifest :: ManifestRoot where
  "exManifest = \<lparr>assemblies = Map.empty, namespaces = [], types = Map.empty, members = Map.empty,
     attributes = Map.empty, staticConstructors = Map.empty\<rparr>"

definition exConfig :: "ManifestRoot \<Rightarrow> FSConfiguration" where
  "exConfig m = \<lparr>ignoreAttributes = (\<lambda>_. False), globalNamespaceName = ''Global Namespace'',
     outputDir = [''docs''], shouldGenerateSidecars = True, sidecarsOutputDir = [''sidecars''],
     gameVersion = ''1.0.0'', manifest = m\<rparr>"

text \<open>A global namespace that lists one type, nested in another.\<close>

definition exInner :: AnyType where
  "exInner = \<lparr>t_uid = ''type:Outer.Inner'', t_name = ''Inner'', t_typekind = Class,
     t_enclosingType = Some ''type:Outer'', t_nestedTypes = None, t_members = None,
     t_attributes = None, t_isCompilerGenerated = False, t_isStatic = False,
     t_staticConstructor = None\<rparr>"

definition exGlobal :: Namespace where
  "exGlobal = \<lparr>ns_uid = ''ns:<global>'', ns_name = [], ns_parent = None, ns_children = None,
     ns_types = Some [''type:Outer.Inner'']\<rparr>"

definition exNestedOnly :: ManifestRoot where
  "exNestedOnly = exManifest\<lparr>namespaces := [(''ns:<global>'', exGlobal)],
     types := [''type:Outer.Inner'' \<mapsto> exInner]\<rparr>"












text \<open>A namespace that lists one type, flagged compiler-generated; no sidecars.\<close>

definition exGen :: AnyType where
  "exGen = \<lparr>t_uid = ''type:Lib.Gen'', t_name = ''Gen'', t_typekind = Class,
     t_enclosingType = None, t_nestedTypes = None, t_members = None,
     t_attributes = None, t_isCompilerGenerated = True, t_isStatic = False,
     t_staticConstructor = None\<rparr>"

definition exLib :: Namespace where
  "exLib = \<lparr>ns_uid = ''ns:Lib'', ns_name = ''Lib'', ns_parent = Some ''ns:<global>'',
     ns_children = None, ns_types = Some [''type:Lib.Gen'']\<rparr>"

definition exWithGenerated :: ManifestRoot where
  "exWithGenerated = exManifest\<lparr>namespaces := [(''ns:Lib'', exLib)],
     types := [''type:Lib.Gen'' \<mapsto> exGen]\<rparr>"

definition exNoSidecars :: SidecarCollection where
  "exNoSidecars = \<lparr>entries = Map.empty, snippets = None\<rparr>"

text \<open>Sidecar entries: one with two hinted and two unhinted sections and a section headed
  See Also; one whose see-also list names a UID that is in no manifest.\<close>

definition exSections :: SidecarEntry where
  "exSections = \<lparr>description = None,
     sections = Some [\<lparr>heading = ''Notes'', content = ''n'', order = None\<rparr>,
                      \<lparr>heading = ''Examples'', content = ''e'', order = Some 20\<rparr>,
                      \<lparr>heading = ''See Also'', content = ''s'', order = Some 1\<rparr>,
                      \<lparr>heading = ''Remarks'', content = ''r'', order = Some 10\<rparr>,
                      \<lparr>heading = ''Caveats'', content = ''c'', order = None\<rparr>],
     seeAlso = None\<rparr>"


section \<open>mergeSidecars: see-also lists\<close>

lemma findIndex_None: "findIndex p xs = None \<longleftrightarrow> (\<forall>x \<in> set xs. \<not> p x)"
  by (induction xs) (auto split: option.splits)

lemma findIndex_Some:
  "findIndex p xs = Some i \<Longrightarrow> i < length xs \<and> p (xs ! i) \<and> (\<forall>j<i. \<not> p (xs ! j))"
proof (induction xs arbitrary: i)
  case Nil
  then show ?case by simp
next
  case (Cons x xs)
  then show ?case
    by (auto split: if_splits option.splits simp: nth_Cons split: nat.splits)
qed

lemma set_firstSeen: "set (firstSeen xs) = set xs"
  by (induction xs) auto

lemma distinct_firstSeen: "distinct (firstSeen xs)"
  by (induction xs) auto

lemma firstSeen_snoc:
  "firstSeen (xs @ [x]) = (if x \<in> set xs then firstSeen xs else firstSeen xs @ [x])"
  by (induction xs) auto

lemma foldl_mergeRef:
  "foldl mergeRef (firstSeen pre, set pre) rs = (firstSeen (pre @ rs), set (pre @ rs))"
proof (induction rs arbitrary: pre)
  case Nil
  then show ?case by simp
next
  case (Cons r rs)
  have "mergeRef (firstSeen pre, set pre) r = (firstSeen (pre @ [r]), set (pre @ [r]))"
    by (auto simp: mergeRef_def firstSeen_snoc)
  then show ?case using Cons.IH[of "pre @ [r]"] by simp
qed

lemma mergeEntry_seeAlso:
  "m_seeAlso m = firstSeen pre \<Longrightarrow> m_seeAlso (mergeEntry m e) = firstSeen (pre @ refsOf e)"
  using foldl_mergeRef[of pre]
  by (auto simp: mergeEntry_def refsOf_def Let_def set_firstSeen split: option.splits)

lemma foldl_mergeEntry_seeAlso:
  "m_seeAlso m = firstSeen pre \<Longrightarrow>
   m_seeAlso (foldl mergeEntry m es) = firstSeen (pre @ concat (map refsOf es))"
proof (induction es arbitrary: m pre)
  case Nil
  then show ?case by simp
next
  case (Cons e es)
  from mergeEntry_seeAlso[OF Cons.prems, of e]
  show ?case using Cons.IH[of "mergeEntry m e" "pre @ refsOf e"] by simp
qed

lemma seeAlso_mergeSidecars:
  "seeAlso (mergeSidecars es) = Some (firstSeen (concat (map refsOf es)))"
  using foldl_mergeEntry_seeAlso
          [of "\<lparr>m_description = None, m_sections = [], m_seeAlso = []\<rparr>" "[]" es]
  by (simp add: mergeSidecars_def Let_def)

text \<open>
  Claim C4. For every sequence of sidecar entries, the see-also list of the merged entry
  is the union of the entries' see-also lists in first-seen order, without duplicates;
  in particular an entry with see-also \<open>[x, y]\<close> merged with one with \<open>[y, z]\<close> gives
  \<open>[x, y, z]\<close> (for three different references).
\<close>

theorem mergeSidecars_seeAlso_union:
  "seeAlso (mergeSidecars es) = Some (firstSeen (concat (map refsOf es)))
   \<and> (distinct [x, y, z] \<longrightarrow>
        seeAlso (mergeSidecars [a\<lparr>seeAlso := Some [x, y]\<rparr>, b\<lparr>seeAlso := Some [y, z]\<rparr>])
          = Some [x, y, z])"
  by (auto simp: seeAlso_mergeSidecars refsOf_def)

theorem mergeSidecars_seeAlso_union_witness:
  "distinct [''type:X'', ''type:Y'', ''type:Z'']
   \<and> seeAlso (mergeSidecars
        [\<lparr>description = None, sections = None, seeAlso = Some [''type:X'', ''type:Y'']\<rparr>,
         \<lparr>description = None, sections = None, seeAlso = Some [''type:Y'', ''type:Z'']\<rparr>])
       = Some [''type:X'', ''type:Y'', ''type:Z'']"
  using mergeSidecars_seeAlso_union
          [of "[]" "''type:X''" "''type:Y''" "''type:Z''"
              "\<lparr>description = None, sections = None, seeAlso = None\<rparr>"
              "\<lparr>description = None, sections = None, seeAlso = None\<rparr>"]
  by simp

section \<open>mergeSidecars: description and sections\<close>

lemma heading_lastWithHeading:
  "h \<in> heading ` set ss \<Longrightarrow> heading (lastWithHeading ss h) = h"
proof -
  assume "h \<in> heading ` set ss"
  then have ne: "filter (\<lambda>s. heading s = h) ss \<noteq> []"
    by (auto simp: filter_empty_conv)
  from last_in_set[OF ne] show ?thesis
    by (simp add: lastWithHeading_def)
qed

lemma map_heading_specSections: "map heading (specSections ss) = firstSeen (map heading ss)"
  unfolding specSections_def map_map
  by (rule map_idI) (simp add: set_firstSeen heading_lastWithHeading)

lemma lastWithHeading_snoc:
  "lastWithHeading (ss @ [s]) h = (if heading s = h then s else lastWithHeading ss h)"
  by (simp add: lastWithHeading_def)

lemma mergeSection_spec: "mergeSection (specSections pre) s = specSections (pre @ [s])"
proof (cases "heading s \<in> heading ` set pre")
  case False
  then have "\<forall>x \<in> set (specSections pre). heading x \<noteq> heading s"
    using map_heading_specSections[of pre] set_firstSeen[of "map heading pre"]
    by (metis (no_types, lifting) image_eqI list.set_map)
  then have "findIndex (\<lambda>x. heading x = heading s) (specSections pre) = None"
    by (simp add: findIndex_None)
  moreover have "specSections (pre @ [s]) = specSections pre @ [s]"
    using False
    by (auto simp: specSections_def firstSeen_snoc lastWithHeading_snoc set_firstSeen)
  ultimately show ?thesis by (simp add: mergeSection_def)
next
  case True
  let ?H = "firstSeen (map heading pre)"
  have "\<exists>x \<in> set (specSections pre). heading x = heading s"
    using True map_heading_specSections[of pre] set_firstSeen[of "map heading pre"]
    by (metis (no_types, lifting) imageE list.set_map)
  then obtain i where i: "findIndex (\<lambda>x. heading x = heading s) (specSections pre) = Some i"
    using findIndex_None[of "\<lambda>x. heading x = heading s" "specSections pre"] by fastforce
  from findIndex_Some[OF i] have il: "i < length ?H"
    by (simp add: specSections_def)
  from findIndex_Some[OF i] have ih: "heading (specSections pre ! i) = heading s"
    by simp
  from ih il have Hi: "?H ! i = heading s"
    using map_heading_specSections[of pre] by (metis length_map nth_map specSections_def)
  have eq: "specSections (pre @ [s]) = map (lastWithHeading (pre @ [s])) ?H"
    using True by (simp add: specSections_def firstSeen_snoc)
  have "(specSections pre)[i := s] = map (lastWithHeading (pre @ [s])) ?H"
  proof (rule nth_equalityI)
    show "length ((specSections pre)[i := s]) = length (map (lastWithHeading (pre @ [s])) ?H)"
      by (simp add: specSections_def)
  next
    fix j assume "j < length ((specSections pre)[i := s])"
    then have jl: "j < length ?H" by (simp add: specSections_def)
    show "(specSections pre)[i := s] ! j = map (lastWithHeading (pre @ [s])) ?H ! j"
    proof (cases "j = i")
      case True
      then show ?thesis using il Hi by (simp add: specSections_def lastWithHeading_snoc)
    next
      case False
      then have "?H ! j \<noteq> ?H ! i"
        using distinct_firstSeen[of "map heading pre"] jl il by (simp add: nth_eq_iff_index_eq)
      then show ?thesis using False jl il Hi
        by (simp add: specSections_def lastWithHeading_snoc)
    qed
  qed
  then show ?thesis using i eq by (simp add: mergeSection_def)
qed

lemma foldl_mergeSection: "foldl mergeSection (specSections pre) ss = specSections (pre @ ss)"
proof (induction ss arbitrary: pre)
  case Nil
  then show ?case by simp
next
  case (Cons s ss)
  show ?case using Cons.IH[of "pre @ [s]"] by (simp add: mergeSection_spec)
qed

lemma mergeEntry_sections:
  "m_sections m = specSections pre \<Longrightarrow>
   m_sections (mergeEntry m e) = specSections (pre @ sectionsOf e)"
  by (auto simp: mergeEntry_def sectionsOf_def Let_def foldl_mergeSection split: option.splits)

lemma foldl_mergeEntry_sections:
  "m_sections m = specSections pre \<Longrightarrow>
   m_sections (foldl mergeEntry m es) = specSections (pre @ concat (map sectionsOf es))"
proof (induction es arbitrary: m pre)
  case Nil
  then show ?case by simp
next
  case (Cons e es)
  from mergeEntry_sections[OF Cons.prems, of e]
  show ?case using Cons.IH[of "mergeEntry m e" "pre @ sectionsOf e"] by simp
qed

lemma mergeEntry_description:
  "m_description (mergeEntry m e) =
     (if truthy (description e) then description e else m_description m)"
  by (auto simp: mergeEntry_def Let_def split: option.splits)

lemma foldl_mergeEntry_description:
  "m_description (foldl mergeEntry m es) =
     (case filter truthy (map description es) of
        [] \<Rightarrow> m_description m
      | d # rest \<Rightarrow> last (d # rest))"
proof (induction es arbitrary: m)
  case Nil
  then show ?case by simp
next
  case (Cons e es)
  show ?case
    by (simp add: Cons.IH mergeEntry_description split: list.splits)
qed

lemma description_mergeSidecars:
  "description (mergeSidecars es) = lastNonEmpty (map description es)"
  by (simp add: mergeSidecars_def Let_def foldl_mergeEntry_description lastNonEmpty_def
      split: list.splits)

lemma sections_mergeSidecars:
  "sections (mergeSidecars es) = Some (specSections (concat (map sectionsOf es)))"
  using foldl_mergeEntry_sections
          [of "\<lparr>m_description = None, m_sections = [], m_seeAlso = []\<rparr>" "[]" es]
  by (simp add: mergeSidecars_def Let_def specSections_def)

lemma filter_eq_distinct: "distinct xs \<Longrightarrow> h \<in> set xs \<Longrightarrow> filter (\<lambda>k. k = h) xs = [h]"
  by (induction xs) (auto simp: filter_empty_conv)

lemma filter_heading_specSections:
  assumes "h \<in> heading ` set ss"
  shows "filter (\<lambda>s. heading s = h) (specSections ss) = [lastWithHeading ss h]"
proof -
  let ?H = "firstSeen (map heading ss)"
  have "filter (\<lambda>s. heading s = h) (specSections ss)
          = map (lastWithHeading ss) (filter (\<lambda>k. heading (lastWithHeading ss k) = h) ?H)"
    by (simp add: specSections_def filter_map comp_def)
  also have "filter (\<lambda>k. heading (lastWithHeading ss k) = h) ?H = filter (\<lambda>k. k = h) ?H"
    by (rule filter_cong) (simp_all add: set_firstSeen heading_lastWithHeading)
  also have "\<dots> = [h]"
    using assms by (simp add: filter_eq_distinct distinct_firstSeen set_firstSeen)
  finally show ?thesis by simp
qed

lemma lastWithHeading_append:
  "h \<in> heading ` set bs \<Longrightarrow> lastWithHeading (as @ bs) h = lastWithHeading bs h"
proof -
  assume "h \<in> heading ` set bs"
  then have "filter (\<lambda>s. heading s = h) bs \<noteq> []"
    by (auto simp: filter_empty_conv)
  then show ?thesis
    by (simp add: lastWithHeading_def)
qed

text \<open>
  Claim C3. For every list of sidecar entries, least specific first, the merged entry's
  description is the last non-empty description (absent if there is none), and its
  sections are the declared sections with a section whose heading already occurred
  replaced in place by the more specific one and new headings appended; in particular,
  when entries \<open>a\<close> and \<open>b\<close> both declare a section headed Remarks, merging \<open>a\<close> then
  \<open>b\<close> gives exactly one Remarks section, and it is the one of \<open>b\<close>.
\<close>

theorem mergeSidecars_description_sections:
  "description (mergeSidecars es) = lastNonEmpty (map description es)
   \<and> sections (mergeSidecars es) = Some (specSections (concat (map sectionsOf es)))
   \<and> (''Remarks'' \<in> heading ` set (sectionsOf a) \<longrightarrow>
      ''Remarks'' \<in> heading ` set (sectionsOf b) \<longrightarrow>
        (\<exists>ss. sections (mergeSidecars [a, b]) = Some ss
            \<and> filter (\<lambda>s. heading s = ''Remarks'') ss
                = [lastWithHeading (sectionsOf b) ''Remarks'']))"
proof (intro conjI impI)
  show "description (mergeSidecars es) = lastNonEmpty (map description es)"
    by (rule description_mergeSidecars)
  show "sections (mergeSidecars es) = Some (specSections (concat (map sectionsOf es)))"
    by (rule sections_mergeSidecars)
next
  assume b: "''Remarks'' \<in> heading ` set (sectionsOf b)"
  then have "''Remarks'' \<in> heading ` set (sectionsOf a @ sectionsOf b)" by auto
  from filter_heading_specSections[OF this] lastWithHeading_append[OF b, of "sectionsOf a"]
  show "\<exists>ss. sections (mergeSidecars [a, b]) = Some ss
            \<and> filter (\<lambda>s. heading s = ''Remarks'') ss
                = [lastWithHeading (sectionsOf b) ''Remarks'']"
    by (simp add: sections_mergeSidecars)
qed

theorem mergeSidecars_description_sections_witness:
  "''Remarks'' \<in> heading ` set (sectionsOf
       \<lparr>description = Some ''base'',
        sections = Some [\<lparr>heading = ''Remarks'', content = ''from A'', order = None\<rparr>,
                         \<lparr>heading = ''Examples'', content = ''ex'', order = None\<rparr>],
        seeAlso = None\<rparr>)
   \<and> ''Remarks'' \<in> heading ` set (sectionsOf
       \<lparr>description = Some [],
        sections = Some [\<lparr>heading = ''Remarks'', content = ''from B'', order = None\<rparr>],
        seeAlso = None\<rparr>)
   \<and> description (mergeSidecars
       [\<lparr>description = Some ''base'',
         sections = Some [\<lparr>heading = ''Remarks'', content = ''from A'', order = None\<rparr>,
                          \<lparr>heading = ''Examples'', content = ''ex'', order = None\<rparr>],
         seeAlso = None\<rparr>,
        \<lparr>description = Some [],
         sections = Some [\<lparr>heading = ''Remarks'', content = ''from B'', order = None\<rparr>],
         seeAlso = None\<rparr>]) = Some ''base''
   \<and> sections (mergeSidecars
       [\<lparr>description = Some ''base'',
         sections = Some [\<lparr>heading = ''Remarks'', content = ''from A'', order = None\<rparr>,
                          \<lparr>heading = ''Examples'', content = ''ex'', order = None\<rparr>],
         seeAlso = None\<rparr>,
        \<lparr>description = Some [],
         sections = Some [\<lparr>heading = ''Remarks'', content = ''from B'', order = None\<rparr>],
         seeAlso = None\<rparr>])
       = Some [\<lparr>heading = ''Remarks'', content = ''from B'', order = None\<rparr>,
               \<lparr>heading = ''Examples'', content = ''ex'', order = None\<rparr>]"
  using mergeSidecars_description_sections
          [of "[\<lparr>description = Some ''base'',
         sections = Some [\<lparr>heading = ''Remarks'', content = ''from A'', order = None\<rparr>,
                          \<lparr>heading = ''Examples'', content = ''ex'', order = None\<rparr>],
         seeAlso = None\<rparr>,
        \<lparr>description = Some [],
         sections = Some [\<lparr>heading = ''Remarks'', content = ''from B'', order = None\<rparr>],
         seeAlso = None\<rparr>]"
         "\<lparr>description = Some ''base'',
         sections = Some [\<lparr>heading = ''Remarks'', content = ''from A'', order = None\<rparr>,
                          \<lparr>heading = ''Examples'', content = ''ex'', order = None\<rparr>],
         seeAlso = None\<rparr>"
         "\<lparr>description = Some [],
         sections = Some [\<lparr>heading = ''Remarks'', content = ''from B'', order = None\<rparr>],
         seeAlso = None\<rparr>"]
  by (simp add: sectionsOf_def specSections_def lastWithHeading_def lastNonEmpty_def truthy_def)

section \<open>resolveSnippets\<close>







section \<open>An invariant of the file-structure generator\<close>

lemma allCalls_emit: "allCalls P (emit cs) = list_all P cs"
  by (simp add: allCalls_def emit_def)

lemma allCalls_andThen: "allCalls P a \<Longrightarrow> allCalls P b \<Longrightarrow> allCalls P (andThen a b)"
  by (auto simp: allCalls_def andThen_def split: outcome.splits)

lemma allCalls_forEach: "(\<And>x. x \<in> set xs \<Longrightarrow> allCalls P (f x)) \<Longrightarrow> allCalls P (forEach f xs)"
proof (induction xs)
  case Nil
  then show ?case by (simp add: allCalls_def)
next
  case (Cons x xs)
  then show ?case by (simp add: allCalls_andThen)
qed

lemma allCalls_mono: "allCalls P r \<Longrightarrow> (\<And>c. P c \<Longrightarrow> P' c) \<Longrightarrow> allCalls P' r"
  by (auto simp: allCalls_def list_all_iff)

lemma callOK_mono: "callOK p Q c \<Longrightarrow> prefix p' p \<Longrightarrow> (\<And>x. Q x \<Longrightarrow> Q' x) \<Longrightarrow> callOK p' Q' c"
  by (cases c) (auto intro: prefix_order.trans)

lemma shouldIgnore_NotAConfig: "shouldIgnore cg attrs NotAConfig = Inr False \<longleftrightarrow> cleanAttrs cg attrs"
proof (cases attrs)
  case None
  then show ?thesis by (simp add: shouldIgnore_def cleanAttrs_def)
next
  case (Some as)
  then show ?thesis by (cases as) (simp_all add: shouldIgnore_def cleanAttrs_def)
qed

lemma not_ignored_not_generated: "shouldIgnore cg attrs arg = Inr False \<Longrightarrow> \<not> cg"
  by (auto simp: shouldIgnore_def split: if_splits)

lemma groupsClean_addToGroup: "groupsClean g \<Longrightarrow> cleanMember mb \<Longrightarrow> groupsClean (addToGroup g mb)"
  by (cases "mb_memberKind mb") (simp_all add: groupsClean_def addToGroup_def)

lemma groupMembersLoop_clean:
  "groupMembersLoop m g uids = Inr g' \<Longrightarrow> groupsClean g \<Longrightarrow> groupsClean g'"
proof (induction uids arbitrary: g)
  case Nil
  then show ?case by simp
next
  case (Cons uid uids)
  show ?case
  proof (cases "members m uid")
    case None
    with Cons show ?thesis by simp
  next
    case (Some mb)
    show ?thesis
    proof (cases "shouldIgnoreMember mb NotAConfig")
      case (Inl e)
      with Cons.prems Some show ?thesis by simp
    next
      case (Inr b)
      show ?thesis
      proof (cases b)
        case True
        with Cons Some Inr show ?thesis by simp
      next
        case False
        with Inr have "cleanMember mb"
          by (simp add: shouldIgnoreMember_def cleanMember_def shouldIgnore_NotAConfig)
        with Cons Some Inr False show ?thesis
          by (simp add: groupsClean_addToGroup)
      qed
    qed
  qed
qed

lemma groupMembersByKind_clean: "groupMembersByKind m uids = Inr g \<Longrightarrow> groupsClean g"
  unfolding groupMembersByKind_def
  by (erule groupMembersLoop_clean) (simp add: groupsClean_def)

lemma addMethod_members:
  "\<forall>(name, l) \<in> set groups. list_all P l \<Longrightarrow> P mb \<Longrightarrow> \<forall>(name, l) \<in> set (addMethod groups mb). list_all P l"
  by (induction groups mb rule: addMethod.induct) auto

lemma foldl_addMethod_members:
  "\<forall>(name, l) \<in> set groups. list_all P l \<Longrightarrow> list_all P ms \<Longrightarrow>
   \<forall>(name, l) \<in> set (foldl addMethod groups ms). list_all P l"
proof (induction ms arbitrary: groups)
  case Nil
  then show ?case by simp
next
  case (Cons a ms)
  from Cons.prems have "\<forall>(name, l) \<in> set (addMethod groups a). list_all P l"
    by (intro addMethod_members) auto
  with Cons show ?case by simp
qed

lemma groupMethodsByName_members:
  "list_all P ms \<Longrightarrow> (name, l) \<in> set (groupMethodsByName ms) \<Longrightarrow> list_all P l"
  using foldl_addMethod_members[of "[]" P ms] by (auto simp: groupMethodsByName_def)

lemma generateConstructors_ok:
  "list_all cleanMember ctors \<Longrightarrow> allCalls (callOK typePath cleanContent) (generateConstructors typePath ctors)"
  by (auto simp: generateConstructors_def allCalls_emit Let_def list_all_iff dest: set_zip_rightD)

lemma generateMethods_ok:
  "list_all cleanMember ms \<Longrightarrow> allCalls (callOK typePath cleanContent) (generateMethods typePath ms)"
  by (auto simp: generateMethods_def allCalls_emit Let_def list_all_iff dest: groupMethodsByName_members[rotated, where P=cleanMember])

lemma generateProperties_ok:
  "list_all cleanMember ms \<Longrightarrow> allCalls (callOK typePath cleanContent) (generateProperties typePath ms)"
  by (auto simp: generateProperties_def allCalls_emit Let_def list_all_iff)

lemma generateFields_ok:
  "list_all cleanMember ms \<Longrightarrow> allCalls (callOK typePath cleanContent) (generateFields typePath ms)"
  by (auto simp: generateFields_def allCalls_emit Let_def list_all_iff)

lemma generateEvents_ok:
  "list_all cleanMember ms \<Longrightarrow> allCalls (callOK typePath cleanContent) (generateEvents typePath ms)"
  by (auto simp: generateEvents_def allCalls_emit Let_def list_all_iff)

lemma generateFieldsOfUids_ok:
  "allCalls (callOK typePath Q) (generateFieldsOfUids typePath uids)"
  by (auto simp: generateFieldsOfUids_def allCalls_emit Let_def) (simp add: allCalls_def)

lemma generateStaticConstructor_ok:
  "allCalls (callOK typePath cleanContent) (generateStaticConstructor m t typePath)"
  by (auto simp: generateStaticConstructor_def emit_def whenNot_def allCalls_def
        shouldIgnoreStaticConstructor_def shouldIgnore_NotAConfig
      split: option.splits sum.splits bool.splits)

lemma generateMembers_ok:
  "allCalls (callOK typePath cleanContent) (generateMembers m t typePath uids)"
proof (cases "groupMembersByKind m uids")
  case (Inl e)
  then show ?thesis by (simp add: generateMembers_def allCalls_def)
next
  case (Inr g)
  from groupMembersByKind_clean[OF Inr] have g: "groupsClean g" .
  show ?thesis
    unfolding generateMembers_def Inr sum.case
    using g
    by (intro allCalls_andThen)
       (auto simp: groupsClean_def allCalls_emit generateConstructors_ok generateMethods_ok
          generateProperties_ok generateFields_ok generateEvents_ok generateStaticConstructor_ok)
qed

lemma allCalls_whenNot_cond: "(t = Inr False \<Longrightarrow> allCalls P r) \<Longrightarrow> allCalls P (whenNot t r)"
  by (auto simp: allCalls_def whenNot_def split: sum.splits bool.splits)

lemma selfOrClean_self: "selfOrClean t (TypeContent t)"
  by (simp add: selfOrClean_def)

lemma generateType_ok:
  "allCalls (callOK parentPath (selfOrClean t)) (generateType n m t parentPath)"
proof (induction n arbitrary: t parentPath)
  case 0
  then show ?case by (simp add: allCalls_def)
next
  case (Suc n)
  have members: "allCalls (callOK parentPath (selfOrClean t)) (generateMembers m t q uids)"
    if "prefix parentPath q" for uids q
    by (rule allCalls_mono[OF generateMembers_ok]) (use that in \<open>auto elim!: callOK_mono simp: selfOrClean_def\<close>)
  have enumFields: "allCalls (callOK parentPath (selfOrClean t)) (generateFieldsOfUids q uids)"
    if "prefix parentPath q" for uids q
    by (rule allCalls_mono[OF generateFieldsOfUids_ok[where Q="selfOrClean t"]])
       (use that in \<open>auto elim!: callOK_mono\<close>)
  have nested: "allCalls (callOK parentPath (selfOrClean t))
      (whenNot (shouldIgnoreType nt NotAConfig) (generateType n m nt q))"
    if "prefix parentPath q" for nt q
  proof (rule allCalls_whenNot_cond)
    assume "shouldIgnoreType nt NotAConfig = Inr False"
    then have c: "cleanType nt"
      by (simp add: shouldIgnoreType_def cleanType_def shouldIgnore_NotAConfig)
    show "allCalls (callOK parentPath (selfOrClean t)) (generateType n m nt q)"
      by (rule allCalls_mono[OF Suc.IH]) (use c that in \<open>auto elim!: callOK_mono simp: selfOrClean_def\<close>)
  qed
  show ?case
    unfolding generateType.simps Let_def
    by (auto intro!: allCalls_andThen allCalls_forEach members enumFields nested
          simp: allCalls_emit selfOrClean_self split: option.splits)
qed

lemma siteOK_namespace: "siteOK arg (NamespaceContent ns)"
  by (simp add: siteOK_def)

lemma generateTypesOf_ok:
  "allCalls (callOK typesPath (siteOK arg)) (generateTypesOf n m arg typesPath uids)"
  unfolding generateTypesOf_def
proof (rule allCalls_forEach)
  fix typeUid
  show "allCalls (callOK typesPath (siteOK arg))
     (case types m typeUid of
        None \<Rightarrow> emit []
      | Some t \<Rightarrow>
          whenNot (shouldIgnoreType t arg)
            (if truthy (t_enclosingType t) then emit [] else generateType n m t typesPath))"
  proof (cases "types m typeUid")
    case None
    then show ?thesis by (simp add: allCalls_emit)
  next
    case (Some t)
    have "allCalls (callOK typesPath (siteOK arg))
            (whenNot (shouldIgnoreType t arg)
              (if truthy (t_enclosingType t) then emit [] else generateType n m t typesPath))"
    proof (rule allCalls_whenNot_cond)
      assume a: "shouldIgnoreType t arg = Inr False"
      have "allCalls (callOK typesPath (siteOK arg)) (generateType n m t typesPath)"
        by (rule allCalls_mono[OF generateType_ok])
           (use a in \<open>auto elim!: callOK_mono simp: selfOrClean_def siteOK_def\<close>)
      then show "allCalls (callOK typesPath (siteOK arg))
          (if truthy (t_enclosingType t) then emit [] else generateType n m t typesPath)"
        by (simp add: allCalls_emit)
    qed
    with Some show ?thesis by simp
  qed
qed

lemma generateTypesOf_ok_under:
  "prefix p typesPath \<Longrightarrow> allCalls (callOK p (siteOK arg)) (generateTypesOf n m arg typesPath uids)"
  by (rule allCalls_mono[OF generateTypesOf_ok]) (auto elim!: callOK_mono)

lemma generateNamespace_ok:
  "allCalls (callOK parentPath (siteOK (Config config))) (generateNamespace n config ns parentPath)"
proof (induction n arbitrary: ns parentPath)
  case 0
  then show ?case by (simp add: allCalls_def)
next
  case (Suc n)
  have child: "allCalls (callOK parentPath (siteOK (Config config))) (generateNamespace n config c q)"
    if "prefix parentPath q" for c q
    by (rule allCalls_mono[OF Suc.IH]) (use that in \<open>auto elim!: callOK_mono\<close>)
  show ?case
    unfolding generateNamespace.simps Let_def
    by (auto intro!: allCalls_andThen allCalls_forEach child generateTypesOf_ok_under
          simp: allCalls_emit siteOK_namespace split: option.splits)
qed

lemma generateGlobalNamespace_ok:
  "allCalls (callOK (outputDir config) (siteOK garg)) (generateGlobalNamespace n config garg ns)"
  unfolding generateGlobalNamespace_def Let_def
  by (auto intro!: allCalls_andThen generateTypesOf_ok_under
        simp: allCalls_emit siteOK_namespace split: option.splits)

lemma generate_ok:
  "allCalls (callOK (outputDir config) (generatedOK config garg)) (generate n config garg ex)"
proof -
  have g: "allCalls (callOK (outputDir config) (generatedOK config garg))
             (generateGlobalNamespace n config garg ns)" for ns
    by (rule allCalls_mono[OF generateGlobalNamespace_ok]) (auto elim!: callOK_mono simp: generatedOK_def)
  have r: "allCalls (callOK (outputDir config) (generatedOK config garg))
             (generateNamespace n config ns (outputDir config))" for ns
    by (rule allCalls_mono[OF generateNamespace_ok]) (auto elim!: callOK_mono simp: generatedOK_def)
  show ?thesis
    unfolding generate_def
    by (auto intro!: allCalls_andThen allCalls_forEach g r simp: allCalls_emit)
qed

section \<open>The global namespace folder\<close>






section \<open>Sidecars and the generator\<close>












section \<open>Termination of the traversal\<close>














section \<open>The ignore policy\<close>

lemma ignoredByAttributes_Config:
  "ignoredByAttributes (Config config) uids =
     Inr (list_ex (\<lambda>uid. case attributes (manifest config) uid of
                           None \<Rightarrow> False
                         | Some attr \<Rightarrow> ignoreAttributes config (at_attributeType attr)) uids)"
  by (induction uids) (auto split: option.splits)

lemma shouldIgnore_Config:
  "shouldIgnore cg attrs (Config config) = Inr (cg \<or> hasIgnoredAttribute config attrs)"
  by (simp add: shouldIgnore_def hasIgnoredAttribute_def ignoredByAttributes_Config
      split: option.splits)

lemma writtenContents_ok: "list_all (callOK p Q) calls \<Longrightarrow> list_all Q (writtenContents calls)"
  by (induction calls rule: writtenContents.induct) auto

lemma clean_not_compilerGenerated: "cleanContent c \<Longrightarrow> \<not> compilerGeneratedContent c"
  by (cases c) (auto simp: cleanType_def cleanMember_def cleanAttrs_def list_all_iff list_ex_iff)

lemma clean_not_ignoredContent: "cleanContent c \<Longrightarrow> \<not> ignoredContent config c"
  by (cases c)
     (auto simp: cleanType_def cleanMember_def cleanAttrs_def ignoredMember_def
        hasIgnoredAttribute_def list_all_iff list_ex_iff)

lemma siteOK_not_compilerGenerated: "siteOK arg c \<Longrightarrow> \<not> compilerGeneratedContent c"
  by (auto simp: siteOK_def shouldIgnoreType_def dest: clean_not_compilerGenerated
        not_ignored_not_generated)

lemma siteOK_not_ignoredContent: "siteOK (Config config) c \<Longrightarrow> \<not> ignoredContent config c"
  by (auto simp: siteOK_def shouldIgnoreType_def shouldIgnore_Config
        dest: clean_not_ignoredContent)

text \<open>
  Given \<^verbatim>\<open>this.manifest\<close> for the configuration, as for nested types and for members, the
  predicate does not get as far as the ignore-list: the first attribute raises a
  TypeError, and generation stops there.
\<close>

lemma shouldIgnoreType_NotAConfig_raises:
  "\<not> t_isCompilerGenerated t \<Longrightarrow> t_attributes t = Some (attrUid # rest) \<Longrightarrow>
   shouldIgnoreType t NotAConfig
     = Inl (TypeError ''Cannot read properties of undefined (reading attributes)'')"
  by (simp add: shouldIgnoreType_def shouldIgnore_def)

text \<open>
  Claim C6, as amended. The ignore predicate of the file-structure generator, given the
  configuration, holds of a type or member if and only if it is compiler-generated or one
  of its attribute UIDs resolves to an attribute whose type is in the ignore-list. The
  file-structure generator writes no node for a type or member flagged
  compiler-generated, also not for one nested in a generated type, and below a
  namespace it writes no node for a type or member the predicate holds of. The listing
  tables do not apply the predicate, and an entity it does not hold of may have no node.
\<close>

theorem ignored_entities_get_no_node:
  "shouldIgnoreType t (Config config)
      = Inr (t_isCompilerGenerated t \<or> hasIgnoredAttribute config (t_attributes t))
   \<and> shouldIgnoreMember mb (Config config)
      = Inr (mb_isCompilerGenerated mb \<or> hasIgnoredAttribute config (mb_attributes mb))
   \<and> list_all (\<lambda>c. \<not> compilerGeneratedContent c)
        (writtenContents (fst (generate n config garg ex)))
   \<and> list_all (\<lambda>c. \<not> ignoredContent config c)
        (writtenContents (fst (generate n config (Config config) ex)))
   \<and> list_all (\<lambda>c. \<not> ignoredContent config c)
        (writtenContents (fst (generateNamespace n config ns parentPath)))"
proof (intro conjI)
  show "shouldIgnoreType t (Config config)
      = Inr (t_isCompilerGenerated t \<or> hasIgnoredAttribute config (t_attributes t))"
    by (simp add: shouldIgnoreType_def shouldIgnore_Config)
  show "shouldIgnoreMember mb (Config config)
      = Inr (mb_isCompilerGenerated mb \<or> hasIgnoredAttribute config (mb_attributes mb))"
    by (simp add: shouldIgnoreMember_def shouldIgnore_Config)
  have "list_all (generatedOK config garg) (writtenContents (fst (generate n config garg ex)))"
    using generate_ok[of config garg n ex] by (simp add: allCalls_def writtenContents_ok)
  then show "list_all (\<lambda>c. \<not> compilerGeneratedContent c)
        (writtenContents (fst (generate n config garg ex)))"
    by (auto simp: list_all_iff generatedOK_def dest: siteOK_not_compilerGenerated)
  have "list_all (generatedOK config (Config config))
          (writtenContents (fst (generate n config (Config config) ex)))"
    using generate_ok[of config "Config config" n ex] by (simp add: allCalls_def writtenContents_ok)
  then show "list_all (\<lambda>c. \<not> ignoredContent config c)
        (writtenContents (fst (generate n config (Config config) ex)))"
    by (auto simp: list_all_iff generatedOK_def dest: siteOK_not_ignoredContent)
  have "list_all (siteOK (Config config))
          (writtenContents (fst (generateNamespace n config ns parentPath)))"
    using generateNamespace_ok[of parentPath config n ns]
    by (simp add: allCalls_def writtenContents_ok)
  then show "list_all (\<lambda>c. \<not> ignoredContent config c)
        (writtenContents (fst (generateNamespace n config ns parentPath)))"
    by (auto simp: list_all_iff dest: siteOK_not_ignoredContent)
qed

text \<open>
  The claim as stated fails, both ways: a type flagged compiler-generated, which the
  predicate holds of, is a row of its namespace's table of types; and a type the
  predicate does not hold of, listed by a namespace but nested in another type, gets no
  node below that namespace.
\<close>

theorem ignore_policy_fails_both_ways:
  "shouldIgnoreType exGen (Config (exConfig exWithGenerated)) = Inr True
   \<and> getTypesTable ''ns:Lib'' exWithGenerated exNoSidecars id
       = MdxTable [''Type'', ''Description''] [[MdxLink ''Gen'' ''type:Lib.Gen'', Str []]]
   \<and> shouldIgnoreType exInner (Config (exConfig exNestedOnly)) = Inr False
   \<and> generateNamespace 3 (exConfig exNestedOnly) (exLib\<lparr>ns_types := Some [''type:Outer.Inner'']\<rparr>) [''docs'']
       = ([Mkdir [''docs'', ''Lib''],
           WriteFile [''docs'', ''Lib'', ''index.mdx'']
             (NamespaceContent (exLib\<lparr>ns_types := Some [''type:Outer.Inner'']\<rparr>)),
           Mkdir [''docs'', ''Lib'', ''Types'']], Done)"
proof -
  have s: "sanitizeFileName ''Lib'' = ''Lib''"
    by (simp add: sanitizeFileName_def stripGenericParameters_def isDigit_def isIllegalChar_def
          isSpaceChar_def)
  have a: "shouldIgnoreType exGen (Config (exConfig exWithGenerated)) = Inr True"
    by (simp add: shouldIgnoreType_def shouldIgnore_def exGen_def)
  have b: "getTypesTable ''ns:Lib'' exWithGenerated exNoSidecars id
       = MdxTable [''Type'', ''Description''] [[MdxLink ''Gen'' ''type:Lib.Gen'', Str []]]"
    by (simp add: exGen_def getTypesTable_def
        namespaceAt_def exWithGenerated_def exManifest_def exLib_def typeRows_def
        getInlineDescription_def exNoSidecars_def)
  have c: "shouldIgnoreType exInner (Config (exConfig exNestedOnly)) = Inr False"
    by (simp add: shouldIgnoreType_def shouldIgnore_def exInner_def)
  have d: "generateNamespace 3 (exConfig exNestedOnly) (exLib\<lparr>ns_types := Some [''type:Outer.Inner'']\<rparr>) [''docs'']
       = ([Mkdir [''docs'', ''Lib''],
           WriteFile [''docs'', ''Lib'', ''index.mdx'']
             (NamespaceContent (exLib\<lparr>ns_types := Some [''type:Outer.Inner'']\<rparr>)),
           Mkdir [''docs'', ''Lib'', ''Types'']], Done)"
    by (simp add: numeral_3_eq_3 exLib_def s exConfig_def exNestedOnly_def exManifest_def
          andThen_def emit_def generateTypesOf_def whenNot_def c[unfolded exConfig_def exNestedOnly_def exManifest_def]
          exInner_def truthy_def shouldIgnoreType_def shouldIgnore_def)
  from a b c d show ?thesis by blast
qed

section \<open>Render order of the sections\<close>

lemma insertBy_hinted:
  "hinted x \<Longrightarrow> \<forall>h \<in> set H. hinted h \<Longrightarrow> \<forall>u \<in> set U. \<not> hinted u \<Longrightarrow>
   insertBy compareSections x (H @ U) = insort_key hint x H @ U"
proof (induction H)
  case Nil
  then show ?case by (cases U) (auto simp: compareSections_def hinted_def split: option.splits)
next
  case (Cons h H)
  then show ?case by (auto simp: compareSections_def hinted_def hint_def split: option.splits)
qed

lemma insertBy_unhinted:
  "\<not> hinted x \<Longrightarrow> \<forall>h \<in> set H. hinted h \<Longrightarrow> \<forall>u \<in> set U. \<not> hinted u \<Longrightarrow>
   insertBy compareSections x (H @ U) = H @ x # U"
proof (induction H)
  case Nil
  then show ?case by (cases U) (auto simp: compareSections_def hinted_def split: option.splits)
next
  case (Cons h H)
  then show ?case by (auto simp: compareSections_def hinted_def hint_def split: option.splits)
qed

lemma sortBy_compareSections:
  "sortBy compareSections xs = sort_key hint (filter hinted xs) @ filter (\<lambda>s. \<not> hinted s) xs"
proof (induction xs)
  case Nil
  then show ?case by (simp add: sortBy_def)
next
  case (Cons x xs)
  have step: "sortBy compareSections (x # xs) = insertBy compareSections x (sortBy compareSections xs)"
    by (simp add: sortBy_def)
  show ?case
  proof (cases "hinted x")
    case True
    then show ?thesis unfolding step Cons.IH
      by (subst insertBy_hinted) auto
  next
    case False
    then show ?thesis unfolding step Cons.IH
      by (subst insertBy_unhinted) auto
  qed
qed

lemma getSectionsInOrder_eq:
  "getSectionsInOrder e
     = sort_key hint (filter hinted (orderedSections e))
       @ filter (\<lambda>s. \<not> hinted s) (orderedSections e)"
  by (simp add: getSectionsInOrder_def orderedSections_def sectionsOf_def sortBy_compareSections
      split: option.splits)

lemma foldl_append_blocks: "foldl (\<lambda>b x. b @ f x) b xs = b @ concat (map f xs)"
  by (induction xs arbitrary: b) simp_all

lemma addSections_eq:
  "entries sidecars uid = Some e \<Longrightarrow>
   addSections b uid sidecars = b @ concat (map sectionBlock (getSectionsInOrder e))"
proof (cases "sections e")
  case None
  assume "entries sidecars uid = Some e"
  with None show ?thesis by (simp add: addSections_def getSectionsInOrder_def)
next
  case (Some ss)
  assume "entries sidecars uid = Some e"
  with Some show ?thesis
    using foldl_append_blocks[of sectionBlock b "getSectionsInOrder e"]
    by (simp add: addSections_def sectionBlock_def)
qed

lemma addSeeAlso_eq:
  "entries sidecars uid = Some e \<Longrightarrow>
   addSeeAlso b uid sidecars m uidToSlugFn = b @ seeAlsoBlock m uidToSlugFn (refsOf e)"
  by (auto simp: addSeeAlso_def seeAlsoBlock_def refsOf_def split: option.splits)

text \<open>
  Claim C5, as amended. For every sidecar entry, the sections resolve into render order
  as follows: sections carrying an explicit order hint come first, sorted ascending by
  the hint; sections without a hint follow, keeping their declaration order; a section
  with the reserved heading See Also is excluded from this ordering and is not rendered
  from the list of sections at all; what is rendered last, after every section and
  regardless of hints, is the block of links built from the entry's see-also
  references, when there are any.
\<close>

theorem sections_render_order:
  "getSectionsInOrder e
     = sort_key hint (filter hinted (orderedSections e))
       @ filter (\<lambda>s. \<not> hinted s) (orderedSections e)
   \<and> list_all (\<lambda>s. heading s \<noteq> SEE_ALSO) (getSectionsInOrder e)
   \<and> (entries sidecars uid = Some e \<longrightarrow>
        addSeeAlso (addSections b uid sidecars) uid sidecars m uidToSlugFn
          = b @ concat (map sectionBlock (getSectionsInOrder e))
              @ seeAlsoBlock m uidToSlugFn (refsOf e))"
proof (intro conjI impI)
  show "getSectionsInOrder e
     = sort_key hint (filter hinted (orderedSections e))
       @ filter (\<lambda>s. \<not> hinted s) (orderedSections e)"
    by (rule getSectionsInOrder_eq)
  show "list_all (\<lambda>s. heading s \<noteq> SEE_ALSO) (getSectionsInOrder e)"
    unfolding getSectionsInOrder_eq
    by (auto simp: list_all_iff orderedSections_def)
next
  assume "entries sidecars uid = Some e"
  then show "addSeeAlso (addSections b uid sidecars) uid sidecars m uidToSlugFn
          = b @ concat (map sectionBlock (getSectionsInOrder e))
              @ seeAlsoBlock m uidToSlugFn (refsOf e)"
    by (simp add: addSections_eq addSeeAlso_eq)
qed

theorem sections_render_order_witness:
  "entries \<lparr>entries = [''type:T'' \<mapsto> exSections], snippets = None\<rparr> ''type:T'' = Some exSections
   \<and> map heading (getSectionsInOrder exSections) = [''Remarks'', ''Examples'', ''Notes'', ''Caveats'']
   \<and> addSeeAlso (addSections [] ''type:T'' \<lparr>entries = [''type:T'' \<mapsto> exSections], snippets = None\<rparr>)
        ''type:T'' \<lparr>entries = [''type:T'' \<mapsto> exSections], snippets = None\<rparr> exManifest id
      = [AddHeading ''Remarks'' 2, AddText (Str ''r''), AddHeading ''Examples'' 2, AddText (Str ''e''),
         AddHeading ''Notes'' 2, AddText (Str ''n''), AddHeading ''Caveats'' 2, AddText (Str ''c'')]"
proof -
  let ?sc = "\<lparr>entries = [''type:T'' \<mapsto> exSections], snippets = None\<rparr>"
  note th = sections_render_order[of exSections ?sc "''type:T''" "[]" exManifest id]
  have a: "entries ?sc ''type:T'' = Some exSections" by simp
  have o: "orderedSections exSections
      = [\<lparr>heading = ''Notes'', content = ''n'', order = None\<rparr>,
         \<lparr>heading = ''Examples'', content = ''e'', order = Some 20\<rparr>,
         \<lparr>heading = ''Remarks'', content = ''r'', order = Some 10\<rparr>,
         \<lparr>heading = ''Caveats'', content = ''c'', order = None\<rparr>]"
    by (simp add: orderedSections_def sectionsOf_def exSections_def SEE_ALSO_def)
  from th have "getSectionsInOrder exSections
     = sort_key hint (filter hinted (orderedSections exSections))
       @ filter (\<lambda>s. \<not> hinted s) (orderedSections exSections)"
    by blast
  then have g: "getSectionsInOrder exSections
      = [\<lparr>heading = ''Remarks'', content = ''r'', order = Some 10\<rparr>,
         \<lparr>heading = ''Examples'', content = ''e'', order = Some 20\<rparr>,
         \<lparr>heading = ''Notes'', content = ''n'', order = None\<rparr>,
         \<lparr>heading = ''Caveats'', content = ''c'', order = None\<rparr>]"
    unfolding o by (simp add: hinted_def hint_def)
  have r: "refsOf exSections = []" by (simp add: refsOf_def exSections_def)
  from th a have "addSeeAlso (addSections [] ''type:T'' ?sc) ''type:T'' ?sc exManifest id
          = [] @ concat (map sectionBlock (getSectionsInOrder exSections))
              @ seeAlsoBlock exManifest id (refsOf exSections)"
    by blast
  then have p: "addSeeAlso (addSections [] ''type:T'' ?sc) ''type:T'' ?sc exManifest id
      = [AddHeading ''Remarks'' 2, AddText (Str ''r''), AddHeading ''Examples'' 2, AddText (Str ''e''),
         AddHeading ''Notes'' 2, AddText (Str ''n''), AddHeading ''Caveats'' 2, AddText (Str ''c'')]"
    unfolding g r by (simp add: sectionBlock_def seeAlsoBlock_def)
  have h: "map heading (getSectionsInOrder exSections) = [''Remarks'', ''Examples'', ''Notes'', ''Caveats'']"
    unfolding g by simp
  from a h p show ?thesis by blast
qed

text \<open>
  The claim as stated fails: with no see-also references, a section headed See Also is
  not rendered at all, last or otherwise.
\<close>

theorem see_also_section_not_rendered:
  "addSeeAlso
     (addSections [] ''type:T''
        \<lparr>entries = [''type:T'' \<mapsto> \<lparr>description = None,
             sections = Some [\<lparr>heading = ''See Also'', content = ''Read the guide.'', order = None\<rparr>],
             seeAlso = None\<rparr>], snippets = None\<rparr>)
     ''type:T''
     \<lparr>entries = [''type:T'' \<mapsto> \<lparr>description = None,
          sections = Some [\<lparr>heading = ''See Also'', content = ''Read the guide.'', order = None\<rparr>],
          seeAlso = None\<rparr>], snippets = None\<rparr>
     exManifest id
   = []"
  by (simp add: addSeeAlso_def addSections_def getSectionsInOrder_def SEE_ALSO_def sortBy_def)

section \<open>References that do not resolve\<close>




section \<open>Resolution and its callers\<close>




end
